theory Spec2Isabelle
  imports Main "HOL-Library.Multiset"
begin

section \<open>Data model\<close>

text \<open>
  Values that cross the method boundary or sit in a document field. A client may send
  any of them as a method argument; \<open>check\<close> decides which ones a method accepts.
\<close>

datatype val = Undefined | Null | Bool bool | Num int | Str string | Date int

text \<open>
  A document of the \<open>tasks\<close> collection. \<open>task_id\<close> is the document's \<open>_id\<close>.
  \<open>checked\<close> and \<open>private\<close> are absent from a freshly inserted document, and
  \<open>username\<close> is absent when the owner's user document has none.
\<close>

record task =
  task_id :: string
  "text" :: string
  createdAt :: int
  owner :: string
  username :: "string option"
  checked :: "bool option"
  "private" :: "bool option"

text \<open>A document of \<open>Meteor.users\<close>: \<open>user_id\<close> is its \<open>_id\<close>.\<close>

record user =
  user_id :: string
  user_username :: "string option"

type_synonym store = "task list"

text \<open>
  What a method invocation reads from its surroundings: \<open>this.userId\<close> (\<open>None\<close> is
  \<open>null\<close>, no logged-in user), the clock read by \<open>new Date()\<close>, the identifier the
  collection's generator hands to the next inserted document, and \<open>Meteor.users\<close>.
\<close>

record env =
  userId :: "string option"
  now :: int
  newId :: string
  users :: "user list"

datatype error = Match_Error | Meteor_Error string | TypeError | DuplicateKey

datatype outcome = Ok | Failed error

section \<open>The collection\<close>

text \<open>The value a selector sees when it reads a field of a task document.\<close>

definition opt_val :: "('a \<Rightarrow> val) \<Rightarrow> 'a option \<Rightarrow> val" where
  "opt_val f x = (case x of None \<Rightarrow> Undefined | Some y \<Rightarrow> f y)"

definition field :: "string \<Rightarrow> task \<Rightarrow> val" where
  "field f t =
     (if f = ''_id'' then Str (task_id t)
      else if f = ''text'' then Str (text t)
      else if f = ''createdAt'' then Date (createdAt t)
      else if f = ''owner'' then Str (owner t)
      else if f = ''username'' then opt_val Str (username t)
      else if f = ''checked'' then opt_val Bool (checked t)
      else if f = ''private'' then opt_val Bool (private t)
      else Undefined)"

text \<open>
  The selectors this program uses: \<open>{}\<close>, \<open>{f: v}\<close>, \<open>{f: {$ne: v}}\<close> and
  \<open>{$or: [...]}\<close>. A field equals \<open>null\<close> when it is \<open>null\<close> or absent.
\<close>

datatype selector = All | Eq string val | Ne string val | Or "selector list"

definition val_eq :: "val \<Rightarrow> val \<Rightarrow> bool" where
  "val_eq a v = (if v = Null \<or> v = Undefined then a = Null \<or> a = Undefined else a = v)"

fun matches :: "selector \<Rightarrow> task \<Rightarrow> bool" where
  "matches All t = True"
| "matches (Eq f v) t = val_eq (field f t) v"
| "matches (Ne f v) t = (\<not> val_eq (field f t) v)"
| "matches (Or ss) t = list_ex (\<lambda>s. matches s t) ss"

definition Tasks_find :: "selector \<Rightarrow> store \<Rightarrow> task list" where
  "Tasks_find sel s = filter (matches sel) s"

text \<open>A string used as a selector stands for \<open>{_id: string}\<close>.\<close>

definition id_selector :: "string \<Rightarrow> selector" where
  "id_selector i = Eq ''_id'' (Str i)"

text \<open>
  \<open>Tasks.insert(doc)\<close>: the collection gives the document its \<open>_id\<close>; the unique index
  on \<open>_id\<close> rejects a document whose identifier is already there.
\<close>

definition Tasks_insert :: "task \<Rightarrow> store \<Rightarrow> outcome \<times> store" where
  "Tasks_insert doc s =
     (if task_id doc \<in> set (map task_id s) then (Failed DuplicateKey, s)
      else (Ok, s @ [doc]))"

text \<open>\<open>Tasks.remove(selector)\<close> deletes every matching document.\<close>

definition Tasks_remove :: "selector \<Rightarrow> store \<Rightarrow> store" where
  "Tasks_remove sel s = filter (\<lambda>t. \<not> matches sel t) s"

text \<open>
  \<open>Tasks.update(selector, modifier)\<close> without \<open>multi\<close> changes the first matching
  document only, and nothing when none matches.
\<close>

fun Tasks_update :: "selector \<Rightarrow> (task \<Rightarrow> task) \<Rightarrow> store \<Rightarrow> store" where
  "Tasks_update sel m [] = []"
| "Tasks_update sel m (t # ts) =
     (if matches sel t then m t # ts else t # Tasks_update sel m ts)"

text \<open>The modifier \<open>{$set: {checked: v}}\<close>.\<close>

definition set_checked :: "bool \<Rightarrow> task \<Rightarrow> task" where
  "set_checked v t = t\<lparr>checked := Some v\<rparr>"

text \<open>\<open>Meteor.users.findOne(id)\<close>: the user document with that \<open>_id\<close>, if any.\<close>

definition users_findOne :: "user list \<Rightarrow> string \<Rightarrow> user option" where
  "users_findOne us i = find (\<lambda>u. user_id u = i) us"

section \<open>The method layer\<close>

text \<open>
  \<open>tasks.insert\<close>: \<open>check(text, String)\<close>, then the login test \<open>!this.userId\<close> (true
  for \<open>null\<close> and for the empty string), then the document is built, which reads
  \<open>.username\<close> of the caller's user document and raises a \<open>TypeError\<close> when there is no
  such document, and last the insertion.
\<close>

definition tasks_insert :: "env \<Rightarrow> val \<Rightarrow> store \<Rightarrow> outcome \<times> store" where
  "tasks_insert e a s =
     (case a of
        Str txt \<Rightarrow>
          (case userId e of
             None \<Rightarrow> (Failed (Meteor_Error ''not-authorized''), s)
           | Some u \<Rightarrow>
               if u = [] then (Failed (Meteor_Error ''not-authorized''), s)
               else
                 (case users_findOne (users e) u of
                    None \<Rightarrow> (Failed TypeError, s)
                  | Some usr \<Rightarrow>
                      Tasks_insert
                        \<lparr>task_id = newId e, text = txt, createdAt = now e, owner = u,
                         username = user_username usr, checked = None, private = None\<rparr> s))
      | _ \<Rightarrow> (Failed Match_Error, s))"

text \<open>\<open>tasks.remove\<close>: \<open>check(taskId, String)\<close>, then \<open>Tasks.remove(taskId)\<close>.\<close>

definition tasks_remove :: "env \<Rightarrow> val \<Rightarrow> store \<Rightarrow> outcome \<times> store" where
  "tasks_remove e a s =
     (case a of
        Str taskId \<Rightarrow> (Ok, Tasks_remove (id_selector taskId) s)
      | _ \<Rightarrow> (Failed Match_Error, s))"

text \<open>
  \<open>tasks.setChecked\<close>: \<open>check(taskId, String)\<close>, \<open>check(setChecked, Boolean)\<close>, then
  the update of \<open>checked\<close>.
\<close>

definition tasks_setChecked :: "env \<Rightarrow> val \<Rightarrow> val \<Rightarrow> store \<Rightarrow> outcome \<times> store" where
  "tasks_setChecked e a b s =
     (case a of
        Str taskId \<Rightarrow>
          (case b of
             Bool v \<Rightarrow> (Ok, Tasks_update (id_selector taskId) (set_checked v) s)
           | _ \<Rightarrow> (Failed Match_Error, s))
      | _ \<Rightarrow> (Failed Match_Error, s))"

text \<open>A remote call names a method and carries its arguments.\<close>

datatype call = Insert val | Remove val | SetChecked val val

fun Meteor_call :: "env \<Rightarrow> call \<Rightarrow> store \<Rightarrow> outcome \<times> store" where
  "Meteor_call e (Insert a) s = tasks_insert e a s"
| "Meteor_call e (Remove a) s = tasks_remove e a s"
| "Meteor_call e (SetChecked a b) s = tasks_setChecked e a b s"

text \<open>
  A sequence of calls, each with its own surroundings, run one after the other; a call
  that fails leaves the store as it found it and the next one goes on.
\<close>

fun run :: "(env \<times> call) list \<Rightarrow> store \<Rightarrow> store" where
  "run [] s = s"
| "run ((e, c) # cs) s = run cs (snd (Meteor_call e c s))"

text \<open>The identifiers the generator hands to the insert calls of a sequence.\<close>

fun assigned_ids :: "(env \<times> call) list \<Rightarrow> string list" where
  "assigned_ids [] = []"
| "assigned_ids ((e, Insert a) # cs) = newId e # assigned_ids cs"
| "assigned_ids ((e, c) # cs) = assigned_ids cs"

section \<open>The publication\<close>

text \<open>\<open>this.userId\<close> as the value the selector compares \<open>owner\<close> with.\<close>

definition userId_val :: "string option \<Rightarrow> val" where
  "userId_val u = (case u of None \<Rightarrow> Null | Some i \<Rightarrow> Str i)"

definition tasksPublication :: "string option \<Rightarrow> store \<Rightarrow> task list" where
  "tasksPublication uid s =
     Tasks_find (Or [Ne ''private'' (Bool True), Eq ''owner'' (userId_val uid)]) s"

section \<open>The client\<close>

text \<open>
  \<open>find({}, {sort: {createdAt: -1}})\<close>: the documents by descending \<open>createdAt\<close>,
  documents with equal keys in the order the collection holds them.
\<close>

fun insert_desc :: "task \<Rightarrow> task list \<Rightarrow> task list" where
  "insert_desc x [] = [x]"
| "insert_desc x (y # ys) =
     (if createdAt y \<le> createdAt x then x # y # ys else y # insert_desc x ys)"

definition sort_createdAt_desc :: "task list \<Rightarrow> task list" where
  "sort_createdAt_desc ts = foldr insert_desc ts []"

text \<open>
  What the client holds: its copy of the subscribed tasks, the login state and its copy
  of the users collection. \<open>Meteor.user()\<close> is the user document of the logged-in user,
  \<open>null\<close> when nobody is logged in.
\<close>

record client =
  local_tasks :: "task list"
  client_userId :: "string option"
  client_users :: "user list"

definition Meteor_user :: "client \<Rightarrow> user option" where
  "Meteor_user c =
     (case client_userId c of None \<Rightarrow> None | Some u \<Rightarrow> users_findOne (client_users c) u)"

record props =
  tasks :: "task list"
  incompleteCount :: nat
  currentUser :: "user option"

definition withTracker :: "client \<Rightarrow> props" where
  "withTracker c =
     \<lparr>tasks = sort_createdAt_desc (Tasks_find All (local_tasks c)),
      incompleteCount = length (Tasks_find (Ne ''checked'' (Bool True)) (local_tasks c)),
      currentUser = Meteor_user c\<rparr>"

text \<open>The props of one rendered \<open>Task\<close> element.\<close>

record task_props =
  showPrivateButton :: bool
  key :: string
  task :: task

text \<open>
  \<open>currentUser && currentUser._id\<close> is \<open>null\<close> without a user and the user's \<open>_id\<close>
  otherwise; \<open>!task.checked\<close> is true for an absent and for a false \<open>checked\<close>.
\<close>

definition currentUserId :: "props \<Rightarrow> string option" where
  "currentUserId p = map_option user_id (currentUser p)"

definition not_checked :: "task \<Rightarrow> bool" where
  "not_checked t = (case checked t of Some True \<Rightarrow> False | _ \<Rightarrow> True)"

definition renderTasks :: "props \<Rightarrow> bool \<Rightarrow> task_props list" where
  "renderTasks p hideCompleted =
     map (\<lambda>t. \<lparr>showPrivateButton = (Some (owner t) = currentUserId p),
               key = task_id t, task = t\<rparr>)
       (filter (\<lambda>t. if hideCompleted then not_checked t else True) (tasks p))"

section \<open>Properties of stored tasks, and sample data\<close>

text \<open>
  \<open>same_but_checked t t'\<close>: the document \<open>t'\<close> agrees with \<open>t\<close> on every field except
  possibly \<open>checked\<close>.
\<close>

definition same_but_checked :: "task \<Rightarrow> task \<Rightarrow> bool" where
  "same_but_checked t t' \<longleftrightarrow>
     task_id t' = task_id t \<and> text t' = text t \<and> createdAt t' = createdAt t
     \<and> owner t' = owner t \<and> username t' = username t \<and> private t' = private t"

definition alice :: user where
  "alice = \<lparr>user_id = ''alice'', user_username = Some ''alice''\<rparr>"

definition anon_env :: env where
  "anon_env = \<lparr>userId = None, now = 100, newId = ''t2'', users = [alice]\<rparr>"

definition alice_env :: env where
  "alice_env = \<lparr>userId = Some ''alice'', now = 100, newId = ''t2'', users = [alice]\<rparr>"

definition milk :: task where
  "milk = \<lparr>task_id = ''t1'', text = ''Buy milk'', createdAt = 10, owner = ''alice'',
     username = Some ''alice'', checked = None, private = None\<rparr>"

definition bread :: task where
  "bread = \<lparr>task_id = ''t0'', text = ''Buy bread'', createdAt = 5, owner = ''bob'',
     username = Some ''bob'', checked = Some True, private = Some True\<rparr>"

definition eggs :: task where
  "eggs = \<lparr>task_id = ''t2'', text = ''Buy eggs'', createdAt = 100, owner = ''alice'',
     username = Some ''alice'', checked = Some False, private = None\<rparr>"

definition secret :: task where
  "secret = \<lparr>task_id = ''t3'', text = ''Plan party'', createdAt = 20, owner = ''alice'',
     username = Some ''alice'', checked = None, private = Some True\<rparr>"

definition session :: "(env \<times> call) list" where
  "session = [(alice_env, Insert (Str ''Buy eggs'')),
              (anon_env, SetChecked (Str ''t1'') (Bool True)),
              (anon_env, Remove (Str ''t0'')),
              (alice_env, SetChecked (Str ''t2'') (Bool False))]"

definition ghost_env :: env where
  "ghost_env = \<lparr>userId = Some ''ghost'', now = 100, newId = ''t2'', users = [alice]\<rparr>"

definition private_session :: "(env \<times> call) list" where
  "private_session = [(alice_env, Insert (Str ''Buy eggs'')),
                      (anon_env, SetChecked (Str ''t3'') (Bool True)),
                      (ghost_env, Remove (Str ''t1''))]"

definition alice_client :: client where
  "alice_client = \<lparr>local_tasks = [bread, milk, eggs], client_userId = Some ''alice'',
     client_users = [alice]\<rparr>"

definition alice_props :: props where
  "alice_props = \<lparr>tasks = [eggs, milk, bread], incompleteCount = 2, currentUser = Some alice\<rparr>"

section \<open>The publish filter\<close>

lemma matches_publish:
  "matches (Or [Ne ''private'' (Bool True), Eq ''owner'' (userId_val u)]) t
     \<longleftrightarrow> private t \<noteq> Some True \<or> u = Some (owner t)"
  by (cases u; cases "private t")
     (auto simp: field_def val_eq_def opt_val_def userId_val_def)

lemma mem_tasksPublication:
  "t \<in> set (tasksPublication u s)
     \<longleftrightarrow> t \<in> set s \<and> (private t \<noteq> Some True \<or> u = Some (owner t))"
  unfolding tasksPublication_def Tasks_find_def set_filter mem_Collect_eq matches_publish ..

text \<open>
  C1. A stored task with \<open>private = true\<close> and owner \<open>A\<close> is not published to a
  connection logged in as \<open>B \<noteq> A\<close> (nor to a connection without a user) and is
  published to a connection logged in as \<open>A\<close>; a task whose \<open>private\<close> is not \<open>true\<close>
  is published to every connection.
\<close>

theorem publish_filter:
  assumes "t \<in> set s"
  shows "(private t = Some True \<and> owner t = A \<and> B \<noteq> A \<longrightarrow>
            t \<notin> set (tasksPublication (Some B) s) \<and> t \<in> set (tasksPublication (Some A) s))
       \<and> (private t = Some True \<longrightarrow> t \<notin> set (tasksPublication None s))
       \<and> (private t \<noteq> Some True \<longrightarrow> t \<in> set (tasksPublication u s))"
  using assms by (auto simp: mem_tasksPublication)

theorem publish_filter_witness:
  "secret \<in> set [secret, milk]
   \<and> private secret = Some True \<and> owner secret = ''alice'' \<and> ''bob'' \<noteq> ''alice''
   \<and> secret \<notin> set (tasksPublication (Some ''bob'') [secret, milk])
   \<and> secret \<in> set (tasksPublication (Some ''alice'') [secret, milk])
   \<and> secret \<notin> set (tasksPublication None [secret, milk])
   \<and> milk \<in> set [secret, milk] \<and> private milk \<noteq> Some True
   \<and> milk \<in> set (tasksPublication (Some ''bob'') [secret, milk])"
proof -
  have h1: "secret \<in> set [secret, milk]" and h2: "milk \<in> set [secret, milk]" by simp_all
  have h3: "private secret = Some True \<and> owner secret = ''alice'' \<and> ''bob'' \<noteq> ''alice''"
    by (simp add: secret_def)
  have h4: "private milk \<noteq> Some True" by (simp add: milk_def)
  from publish_filter [OF h1, of "''alice''" "''bob''" None]
    publish_filter [OF h2, of "''alice''" "''bob''" "Some ''bob''"] h1 h2 h3 h4
  show ?thesis by blast
qed

section \<open>The methods, one call at a time\<close>

text \<open>
  The sentence "every \<open>tasks.insert\<close> by a caller without a user id fails with
  \<open>not-authorized\<close>" does not hold when the argument is not a string: \<open>check\<close> runs
  before the login test, and the call fails with the validation error.
\<close>

theorem insert_unauthenticated_counterexample:
  "userId anon_env = None
   \<and> tasks_insert anon_env (Num 42) [milk] = (Failed Match_Error, [milk])
   \<and> fst (tasks_insert anon_env (Num 42) [milk]) \<noteq> Failed (Meteor_Error ''not-authorized'')"
  by (simp add: tasks_insert_def anon_env_def)

text \<open>
  C2, amended. A \<open>tasks.insert\<close> by a caller without a user id always fails and leaves
  the store unchanged: with a string argument the failure is the authorization error
  \<open>not-authorized\<close>, with any other argument it is the validation error of
  \<open>check(text, String)\<close>.
\<close>

theorem insert_unauthenticated:
  assumes "userId e = None"
  shows "tasks_insert e (Str txt) s = (Failed (Meteor_Error ''not-authorized''), s)
       \<and> ((\<nexists>x. a = Str x) \<longrightarrow> tasks_insert e a s = (Failed Match_Error, s))
       \<and> (\<exists>err. tasks_insert e a s = (Failed err, s))"
  using assms by (cases a) (simp_all add: tasks_insert_def)

theorem insert_unauthenticated_witness:
  "userId anon_env = None
   \<and> tasks_insert anon_env (Str ''Buy eggs'') [milk]
       = (Failed (Meteor_Error ''not-authorized''), [milk])
   \<and> (\<nexists>x. Num 42 = Str x)
   \<and> tasks_insert anon_env (Num 42) [milk] = (Failed Match_Error, [milk])"
proof -
  have h: "userId anon_env = None" by (simp add: anon_env_def)
  from insert_unauthenticated [OF h, of "''Buy eggs''" "[milk]" "Num 42"] h
  show ?thesis by simp
qed

text \<open>
  The sentence "every \<open>tasks.insert\<close> of a string by a caller with a user id creates
  a task" does not hold when \<open>Meteor.users\<close> has no document for that id: the login
  test \<open>!this.userId\<close> passes, \<open>findOne\<close> finds nothing, reading \<open>.username\<close> raises
  a \<open>TypeError\<close>, and nothing is inserted.
\<close>

theorem insert_authenticated_counterexample:
  "userId ghost_env = Some ''ghost'' \<and> ''ghost'' \<noteq> []
   \<and> tasks_insert ghost_env (Str ''Buy eggs'') [milk] = (Failed TypeError, [milk])"
  by (simp add: tasks_insert_def ghost_env_def users_findOne_def alice_def)

text \<open>
  C3, amended. For a string \<open>txt\<close> and a logged-in caller \<open>u\<close> (a non-empty user id)
  whose user document exists in \<open>Meteor.users\<close>, with the collection's generator handing
  out an unused identifier, \<open>tasks.insert\<close> succeeds and the new store is the old one
  followed by exactly one new task: its text is \<open>txt\<close>, its owner \<open>u\<close>, its username
  the caller's, \<open>checked\<close> and \<open>private\<close> are absent, and \<open>createdAt\<close> is the clock
  reading of the call.
\<close>

theorem insert_creates:
  assumes "userId e = Some u" and "u \<noteq> []"
    and "users_findOne (users e) u = Some usr"
    and "newId e \<notin> task_id ` set s"
  shows "\<exists>t. tasks_insert e (Str txt) s = (Ok, s @ [t])
          \<and> task_id t = newId e \<and> text t = txt \<and> owner t = u
          \<and> username t = user_username usr
          \<and> checked t = None \<and> private t = None
          \<and> createdAt t = now e \<and> createdAt t \<le> now e"
  using assms by (simp add: tasks_insert_def Tasks_insert_def)

lemma insert_eggs:
  "tasks_insert alice_env (Str ''Buy eggs'') [milk] = (Ok, [milk, eggs\<lparr>checked := None\<rparr>])"
  by (simp add: tasks_insert_def Tasks_insert_def alice_env_def users_findOne_def alice_def
      milk_def eggs_def)

theorem insert_creates_witness:
  "userId alice_env = Some ''alice'' \<and> ''alice'' \<noteq> []
   \<and> users_findOne (users alice_env) ''alice'' = Some alice
   \<and> newId alice_env \<notin> task_id ` set [milk]
   \<and> tasks_insert alice_env (Str ''Buy eggs'') [milk] = (Ok, [milk, eggs\<lparr>checked := None\<rparr>])
   \<and> (\<exists>t. tasks_insert alice_env (Str ''Buy eggs'') [milk] = (Ok, [milk] @ [t])
          \<and> task_id t = newId alice_env \<and> text t = ''Buy eggs'' \<and> owner t = ''alice''
          \<and> username t = user_username alice
          \<and> checked t = None \<and> private t = None
          \<and> createdAt t = now alice_env \<and> createdAt t \<le> now alice_env)"
proof -
  have h1: "userId alice_env = Some ''alice''" by (simp add: alice_env_def)
  have h2: "''alice'' \<noteq> []" by simp
  have h3: "users_findOne (users alice_env) ''alice'' = Some alice"
    by (simp add: alice_env_def users_findOne_def alice_def)
  have h4: "newId alice_env \<notin> task_id ` set [milk]" by (simp add: alice_env_def milk_def)
  from insert_creates [OF h1 h2 h3 h4, of "''Buy eggs''"] h1 h2 h3 h4 insert_eggs
  show ?thesis by blast
qed

lemma matches_id_selector: "matches (id_selector i) t \<longleftrightarrow> task_id t = i"
  by (auto simp: id_selector_def field_def val_eq_def)

lemma Tasks_update_split:
  assumes "s = pre @ t # post" and "\<forall>x \<in> set pre. \<not> matches sel x" and "matches sel t"
  shows "Tasks_update sel m s = pre @ m t # post"
  using assms by (induction pre arbitrary: s) auto

lemma distinct_split:
  assumes "t \<in> set s" and "distinct (map task_id s)"
  shows "\<exists>pre post. s = pre @ t # post
           \<and> (\<forall>x \<in> set pre. task_id x \<noteq> task_id t)
           \<and> (\<forall>x \<in> set post. task_id x \<noteq> task_id t)"
proof -
  from assms(1) obtain pre post where sp: "s = pre @ t # post"
    by (auto simp: in_set_conv_decomp)
  with assms(2) have "task_id t \<notin> task_id ` set pre" and "task_id t \<notin> task_id ` set post"
    by auto
  then have "(\<forall>x \<in> set pre. task_id x \<noteq> task_id t)
      \<and> (\<forall>x \<in> set post. task_id x \<noteq> task_id t)"
    by (metis imageI)
  with sp show ?thesis by blast
qed

text \<open>
  C4. In a store with unique ids, for the id \<open>i\<close> of a stored task \<open>t\<close> and a boolean
  \<open>v\<close>, \<open>tasks.setChecked(i, v)\<close> succeeds and replaces \<open>t\<close>, in place, by a task
  whose \<open>checked\<close> is \<open>v\<close> and whose id, text, createdAt, owner, username and private
  are those of \<open>t\<close>; the tasks before and after it are unchanged.
\<close>

theorem setChecked_frame:
  assumes "t \<in> set s" and "task_id t = i" and "distinct (map task_id s)"
  shows "\<exists>pre post t'. s = pre @ t # post
          \<and> tasks_setChecked e (Str i) (Bool v) s = (Ok, pre @ t' # post)
          \<and> checked t' = Some v
          \<and> task_id t' = task_id t \<and> text t' = text t \<and> createdAt t' = createdAt t
          \<and> owner t' = owner t \<and> username t' = username t \<and> private t' = private t"
proof -
  from distinct_split [OF assms(1,3)] obtain pre post where sp: "s = pre @ t # post"
    and pre: "\<forall>x \<in> set pre. task_id x \<noteq> task_id t" by blast
  have "Tasks_update (id_selector i) (set_checked v) s = pre @ set_checked v t # post"
    using sp pre assms(2) by (intro Tasks_update_split) (auto simp: matches_id_selector)
  then have "tasks_setChecked e (Str i) (Bool v) s = (Ok, pre @ set_checked v t # post)"
    by (simp add: tasks_setChecked_def)
  with sp show ?thesis
    by (intro exI [of _ pre] exI [of _ post] exI [of _ "set_checked v t"])
       (simp add: set_checked_def)
qed

lemma setChecked_milk:
  "tasks_setChecked anon_env (Str ''t1'') (Bool True) [bread, milk]
     = (Ok, [bread, milk\<lparr>checked := Some True\<rparr>])"
  by (simp add: tasks_setChecked_def id_selector_def field_def val_eq_def set_checked_def
      milk_def bread_def)

theorem setChecked_frame_witness:
  "milk \<in> set [bread, milk] \<and> task_id milk = ''t1'' \<and> distinct (map task_id [bread, milk])
   \<and> tasks_setChecked anon_env (Str ''t1'') (Bool True) [bread, milk]
       = (Ok, [bread, milk\<lparr>checked := Some True\<rparr>])
   \<and> (\<exists>pre post t'. [bread, milk] = pre @ milk # post
          \<and> tasks_setChecked anon_env (Str ''t1'') (Bool True) [bread, milk]
              = (Ok, pre @ t' # post)
          \<and> checked t' = Some True
          \<and> task_id t' = task_id milk \<and> text t' = text milk \<and> createdAt t' = createdAt milk
          \<and> owner t' = owner milk \<and> username t' = username milk
          \<and> private t' = private milk)"
proof -
  have h1: "milk \<in> set [bread, milk]" by simp
  have h2: "task_id milk = ''t1''" by (simp add: milk_def)
  have h3: "distinct (map task_id [bread, milk])" by (simp add: milk_def bread_def)
  from setChecked_frame [OF h1 h2 h3, of anon_env True] h1 h2 h3 setChecked_milk
  show ?thesis by blast
qed

text \<open>
  C5. In a store with unique ids, for the id \<open>i\<close> of a stored task \<open>t\<close>,
  \<open>tasks.remove(i)\<close> succeeds and the new store is the old one without \<open>t\<close>, every
  other task kept; the caller plays no part: any two surroundings, with or without a
  user id, give the same result.
\<close>

theorem remove_exact:
  assumes "t \<in> set s" and "task_id t = i" and "distinct (map task_id s)"
  shows "\<exists>pre post. s = pre @ t # post
          \<and> tasks_remove e (Str i) s = (Ok, pre @ post)
          \<and> t \<notin> set (pre @ post)
          \<and> tasks_remove e' (Str i) s = tasks_remove e (Str i) s"
proof -
  from distinct_split [OF assms(1,3)] obtain pre post where sp: "s = pre @ t # post"
    and pre: "\<forall>x \<in> set pre. task_id x \<noteq> task_id t"
    and post: "\<forall>x \<in> set post. task_id x \<noteq> task_id t" by blast
  have "filter (\<lambda>x. task_id x \<noteq> i) pre = pre" and "filter (\<lambda>x. task_id x \<noteq> i) post = post"
    using pre post assms(2) by (auto simp: filter_id_conv)
  then have "Tasks_remove (id_selector i) s = pre @ post"
    using sp assms(2) by (simp add: Tasks_remove_def matches_id_selector)
  moreover have "t \<notin> set (pre @ post)" using pre post by auto
  ultimately show ?thesis using sp by (auto simp: tasks_remove_def)
qed

lemma remove_milk:
  "tasks_remove anon_env (Str ''t1'') [bread, milk] = (Ok, [bread])"
  by (simp add: tasks_remove_def Tasks_remove_def id_selector_def field_def val_eq_def
      milk_def bread_def)

theorem remove_exact_witness:
  "milk \<in> set [bread, milk] \<and> task_id milk = ''t1'' \<and> distinct (map task_id [bread, milk])
   \<and> userId anon_env = None
   \<and> tasks_remove anon_env (Str ''t1'') [bread, milk] = (Ok, [bread])
   \<and> (\<exists>pre post. [bread, milk] = pre @ milk # post
          \<and> tasks_remove anon_env (Str ''t1'') [bread, milk] = (Ok, pre @ post)
          \<and> milk \<notin> set (pre @ post)
          \<and> tasks_remove alice_env (Str ''t1'') [bread, milk]
              = tasks_remove anon_env (Str ''t1'') [bread, milk])"
proof -
  have h1: "milk \<in> set [bread, milk]" by simp
  have h2: "task_id milk = ''t1''" by (simp add: milk_def)
  have h3: "distinct (map task_id [bread, milk])" by (simp add: milk_def bread_def)
  have h4: "userId anon_env = None" by (simp add: anon_env_def)
  from remove_exact [OF h1 h2 h3, of anon_env alice_env] h1 h2 h3 h4 remove_milk
  show ?thesis by blast
qed

text \<open>
  C6. A call whose first argument is not a string fails with the validation error and
  leaves the store unchanged, for each of the three methods; so does
  \<open>tasks.setChecked\<close> when its second argument is not a boolean.
\<close>

theorem type_mismatch:
  "((\<nexists>x. a = Str x) \<longrightarrow>
       tasks_insert e a s = (Failed Match_Error, s)
     \<and> tasks_remove e a s = (Failed Match_Error, s)
     \<and> tasks_setChecked e a b s = (Failed Match_Error, s))
   \<and> ((\<nexists>v. b = Bool v) \<longrightarrow> tasks_setChecked e a b s = (Failed Match_Error, s))"
  by (cases a; cases b)
     (simp_all add: tasks_insert_def tasks_remove_def tasks_setChecked_def)

theorem type_mismatch_witness:
  "(\<nexists>x. Num 42 = Str x) \<and> (\<nexists>v. Str ''yes'' = Bool v)
   \<and> tasks_insert alice_env (Num 42) [milk] = (Failed Match_Error, [milk])
   \<and> tasks_remove alice_env (Num 42) [milk] = (Failed Match_Error, [milk])
   \<and> tasks_setChecked alice_env (Num 42) (Bool True) [milk] = (Failed Match_Error, [milk])
   \<and> tasks_setChecked alice_env (Str ''t1'') (Str ''yes'') [milk]
       = (Failed Match_Error, [milk])"
  using type_mismatch [of "Num 42" alice_env "[milk]" "Bool True"]
    type_mismatch [of "Str ''t1''" alice_env "[milk]" "Str ''yes''"]
  by simp

section \<open>Sequences of calls\<close>

lemma same_but_checked_set_checked:
  "same_but_checked t x \<Longrightarrow> same_but_checked t (set_checked v x)"
  by (simp add: same_but_checked_def set_checked_def)

lemma set_Tasks_update:
  "x \<in> set (Tasks_update sel m s) \<Longrightarrow> x \<in> set s \<or> (\<exists>y \<in> set s. x = m y)"
  by (induction s) (auto split: if_splits)

lemma set_Tasks_remove: "x \<in> set (Tasks_remove sel s) \<Longrightarrow> x \<in> set s"
  by (simp add: Tasks_remove_def)

text \<open>
  Where a task of the store after one call comes from: it was there before, or it is a
  stored task with \<open>checked\<close> rewritten, or it is the task an insert call created.
\<close>

lemma Meteor_call_cases:
  assumes "x \<in> set (snd (Meteor_call e c s))"
  shows "x \<in> set s \<or> (\<exists>v. \<exists>y \<in> set s. x = set_checked v y)
       \<or> (\<exists>a. c = Insert a \<and> task_id x = newId e \<and> private x = None)"
proof (cases c)
  case (Insert a)
  with assms show ?thesis
    by (auto simp: tasks_insert_def Tasks_insert_def split: val.splits option.splits if_splits)
next
  case (Remove a)
  with assms show ?thesis
    by (auto simp: tasks_remove_def split: val.splits dest: set_Tasks_remove)
next
  case (SetChecked a b)
  with assms show ?thesis
    by (auto simp: tasks_setChecked_def split: val.splits dest!: set_Tasks_update)
qed

lemma run_keeps_fields:
  assumes "\<forall>x \<in> set s. task_id x = task_id t \<longrightarrow> same_but_checked t x"
    and "task_id t \<notin> set (assigned_ids cs)"
  shows "\<forall>x \<in> set (run cs s). task_id x = task_id t \<longrightarrow> same_but_checked t x"
  using assms
proof (induction cs arbitrary: s)
  case Nil
  then show ?case by simp
next
  case (Cons ec cs)
  obtain e c where ec: "ec = (e, c)" by (cases ec)
  let ?s1 = "snd (Meteor_call e c s)"
  have fresh: "task_id t \<notin> set (assigned_ids cs)"
    and here: "\<And>a. c = Insert a \<Longrightarrow> newId e \<noteq> task_id t"
    using Cons.prems(2) ec by (cases c; auto)+
  have "\<forall>x \<in> set ?s1. task_id x = task_id t \<longrightarrow> same_but_checked t x"
  proof (intro ballI impI)
    fix x assume x: "x \<in> set ?s1" and idx: "task_id x = task_id t"
    from Meteor_call_cases [OF x] consider
      "x \<in> set s" | v y where "y \<in> set s" "x = set_checked v y"
      | a where "c = Insert a" "task_id x = newId e" by blast
    then show "same_but_checked t x"
    proof cases
      case 1
      with Cons.prems(1) idx show ?thesis by blast
    next
      case 2
      with idx have "task_id y = task_id t" by (simp add: set_checked_def)
      with 2 Cons.prems(1) show ?thesis by (auto intro: same_but_checked_set_checked)
    next
      case 3
      with here idx show ?thesis by auto
    qed
  qed
  from Cons.IH [OF this fresh] show ?case by (simp add: ec)
qed

lemma run_session: "run session [bread, milk] = [milk\<lparr>checked := Some True\<rparr>, eggs]"
  by (simp add: session_def alice_env_def anon_env_def alice_def milk_def bread_def eggs_def
      tasks_insert_def tasks_remove_def tasks_setChecked_def Tasks_insert_def Tasks_remove_def
      users_findOne_def id_selector_def field_def val_eq_def set_checked_def)

text \<open>
  C7. Take a store with unique ids, a task \<open>t\<close> in it, and any sequence of calls to
  the three methods in which no insert is handed the id of \<open>t\<close> (identifiers are not
  reused). A task with the id of \<open>t\<close> in the store after the sequence has the owner,
  createdAt and username of \<open>t\<close>, and its text and private as well: only \<open>checked\<close> can
  differ.
\<close>

theorem immutable_fields:
  assumes "distinct (map task_id s)" and "t \<in> set s"
    and "task_id t \<notin> set (assigned_ids cs)"
    and "t' \<in> set (run cs s)" and "task_id t' = task_id t"
  shows "owner t' = owner t \<and> createdAt t' = createdAt t \<and> username t' = username t
       \<and> text t' = text t \<and> private t' = private t"
proof -
  have "\<forall>x \<in> set s. task_id x = task_id t \<longrightarrow> same_but_checked t x"
  proof (intro ballI impI)
    fix x assume "x \<in> set s" and "task_id x = task_id t"
    with assms(1,2) have "x = t" by (meson distinct_map inj_onD)
    then show "same_but_checked t x" by (simp add: same_but_checked_def)
  qed
  from run_keeps_fields [OF this assms(3)] assms(4,5)
  show ?thesis by (auto simp: same_but_checked_def)
qed

theorem immutable_fields_witness:
  "distinct (map task_id [bread, milk]) \<and> milk \<in> set [bread, milk]
   \<and> task_id milk \<notin> set (assigned_ids session)
   \<and> run session [bread, milk] = [milk\<lparr>checked := Some True\<rparr>, eggs]
   \<and> milk\<lparr>checked := Some True\<rparr> \<in> set (run session [bread, milk])
   \<and> task_id (milk\<lparr>checked := Some True\<rparr>) = task_id milk
   \<and> owner (milk\<lparr>checked := Some True\<rparr>) = owner milk
   \<and> createdAt (milk\<lparr>checked := Some True\<rparr>) = createdAt milk
   \<and> username (milk\<lparr>checked := Some True\<rparr>) = username milk
   \<and> text (milk\<lparr>checked := Some True\<rparr>) = text milk
   \<and> private (milk\<lparr>checked := Some True\<rparr>) = private milk"
proof -
  have h1: "distinct (map task_id [bread, milk])" by (simp add: milk_def bread_def)
  have h2: "milk \<in> set [bread, milk]" by simp
  have h3: "task_id milk \<notin> set (assigned_ids session)"
    by (simp add: session_def milk_def alice_env_def)
  have h4: "milk\<lparr>checked := Some True\<rparr> \<in> set (run session [bread, milk])"
    by (simp add: run_session)
  have h5: "task_id (milk\<lparr>checked := Some True\<rparr>) = task_id milk" by simp
  from immutable_fields [OF h1 h2 h3 h4 h5] h1 h2 h3 h4 h5 run_session
  show ?thesis by blast
qed

lemma run_private_source:
  assumes "\<forall>x \<in> set s. private x = None \<or> (\<exists>t \<in> T. task_id t = task_id x \<and> private t = private x)"
  shows "\<forall>x \<in> set (run cs s).
           private x = None \<or> (\<exists>t \<in> T. task_id t = task_id x \<and> private t = private x)"
  using assms
proof (induction cs arbitrary: s)
  case Nil
  then show ?case by simp
next
  case (Cons ec cs)
  obtain e c where ec: "ec = (e, c)" by (cases ec)
  have "\<forall>x \<in> set (snd (Meteor_call e c s)).
          private x = None \<or> (\<exists>t \<in> T. task_id t = task_id x \<and> private t = private x)"
  proof
    fix x assume "x \<in> set (snd (Meteor_call e c s))"
    from Meteor_call_cases [OF this] consider
      "x \<in> set s" | v y where "y \<in> set s" "x = set_checked v y" | "private x = None" by auto
    then show "private x = None \<or> (\<exists>t \<in> T. task_id t = task_id x \<and> private t = private x)"
    proof cases
      case 1
      with Cons.prems show ?thesis by blast
    next
      case 2
      then have "task_id x = task_id y" and "private x = private y"
        by (simp_all add: set_checked_def)
      with 2 Cons.prems show ?thesis by metis
    next
      case 3
      then show ?thesis by simp
    qed
  qed
  from Cons.IH [OF this] show ?case by (simp add: ec)
qed

lemma distinct_same_but_checked:
  assumes "distinct (map task_id s)" and "t \<in> set s"
  shows "\<forall>x \<in> set s. task_id x = task_id t \<longrightarrow> same_but_checked t x"
proof (intro ballI impI)
  fix x assume "x \<in> set s" and "task_id x = task_id t"
  with assms have "x = t" by (meson distinct_map inj_onD)
  then show "same_but_checked t x" by (simp add: same_but_checked_def)
qed

lemma insert_private_unset:
  "x \<in> set (snd (tasks_insert e a s)) \<Longrightarrow> x \<in> set s \<or> private x = None"
  by (auto simp: tasks_insert_def Tasks_insert_def split: val.splits option.splits if_splits)

lemma setChecked_writes_checked:
  assumes "x \<in> set (snd (tasks_setChecked e a b s))"
  shows "x \<in> set s \<or> (\<exists>v. \<exists>y \<in> set s. x = y\<lparr>checked := Some v\<rparr>)"
proof -
  from assms have "x \<in> set s \<or> (\<exists>v. x \<in> set (Tasks_update (id_selector (case a of Str i \<Rightarrow> i | _ \<Rightarrow> [])) (set_checked v) s))"
    by (cases a; cases b) (auto simp: tasks_setChecked_def)
  then show ?thesis
    using set_Tasks_update [of x _ "set_checked _" s] unfolding set_checked_def by blast
qed

text \<open>
  C10. No call of the method layer sets or changes \<open>private\<close>. For a task \<open>t'\<close> of the
  store after any sequence of calls: its \<open>private\<close> is absent or is that of a task of
  the initial store with the same id; if the initial store has unique ids and holds a
  task \<open>t\<close> with the id of \<open>t'\<close>, never handed out again by the generator, then
  \<open>t'\<close> is \<open>t\<close> up to \<open>checked\<close>, with the \<open>private\<close> of \<open>t\<close>; and if its id was
  not in the initial store, so that an insert of the sequence created it, its
  \<open>private\<close> is absent and the publication of the resulting store to any connection
  contains it. One call at a time: every task in the store after \<open>tasks.insert\<close> was
  there before or has no \<open>private\<close>, and every task in the store after
  \<open>tasks.setChecked\<close> was there before or is a stored task with only \<open>checked\<close>
  rewritten.
\<close>

theorem private_never_set:
  assumes "t' \<in> set (run cs s)"
  shows "(private t' = None \<or> (\<exists>t \<in> set s. task_id t = task_id t' \<and> private t = private t'))
       \<and> (\<forall>t \<in> set s. distinct (map task_id s) \<and> task_id t \<notin> set (assigned_ids cs)
              \<and> task_id t' = task_id t \<longrightarrow> private t' = private t \<and> same_but_checked t t')
       \<and> (task_id t' \<notin> task_id ` set s \<longrightarrow>
              private t' = None \<and> (\<forall>u. t' \<in> set (tasksPublication u (run cs s))))
       \<and> (\<forall>x \<in> set (snd (tasks_insert e a s)). x \<in> set s \<or> private x = None)
       \<and> (\<forall>x \<in> set (snd (tasks_setChecked e a b s)).
              x \<in> set s \<or> (\<exists>v. \<exists>y \<in> set s. x = y\<lparr>checked := Some v\<rparr>))"
proof -
  have "\<forall>x \<in> set s. private x = None
          \<or> (\<exists>t \<in> set s. task_id t = task_id x \<and> private t = private x)" by blast
  from run_private_source [OF this, of cs] assms
  have A: "private t' = None \<or> (\<exists>t \<in> set s. task_id t = task_id t' \<and> private t = private t')"
    by blast
  have B: "\<forall>t \<in> set s. distinct (map task_id s) \<and> task_id t \<notin> set (assigned_ids cs)
              \<and> task_id t' = task_id t \<longrightarrow> private t' = private t \<and> same_but_checked t t'"
  proof (intro ballI impI)
    fix t assume t: "t \<in> set s"
      and h: "distinct (map task_id s) \<and> task_id t \<notin> set (assigned_ids cs)
              \<and> task_id t' = task_id t"
    from h t have "\<forall>x \<in> set s. task_id x = task_id t \<longrightarrow> same_but_checked t x"
      by (intro distinct_same_but_checked) simp_all
    from run_keeps_fields [OF this] h assms have "same_but_checked t t'" by blast
    then show "private t' = private t \<and> same_but_checked t t'"
      by (simp add: same_but_checked_def)
  qed
  have C: "task_id t' \<notin> task_id ` set s \<longrightarrow>
              private t' = None \<and> (\<forall>u. t' \<in> set (tasksPublication u (run cs s)))"
  proof
    assume "task_id t' \<notin> task_id ` set s"
    with A have "private t' = None" by (metis imageI)
    with assms show "private t' = None \<and> (\<forall>u. t' \<in> set (tasksPublication u (run cs s)))"
      by (simp add: mem_tasksPublication)
  qed
  have D: "\<forall>x \<in> set (snd (tasks_insert e a s)). x \<in> set s \<or> private x = None"
    by (intro ballI) (rule insert_private_unset)
  have E: "\<forall>x \<in> set (snd (tasks_setChecked e a b s)).
              x \<in> set s \<or> (\<exists>v. \<exists>y \<in> set s. x = y\<lparr>checked := Some v\<rparr>)"
    by (intro ballI) (rule setChecked_writes_checked)
  from A B C D E show ?thesis by blast
qed

lemma run_private_session:
  "run private_session [secret, milk] = [secret\<lparr>checked := Some True\<rparr>, eggs\<lparr>checked := None\<rparr>]"
  by (simp add: private_session_def alice_env_def anon_env_def ghost_env_def alice_def
      milk_def secret_def eggs_def
      tasks_insert_def tasks_remove_def tasks_setChecked_def Tasks_insert_def Tasks_remove_def
      users_findOne_def id_selector_def field_def val_eq_def set_checked_def)

theorem private_never_set_witness:
  "run private_session [secret, milk] = [secret\<lparr>checked := Some True\<rparr>, eggs\<lparr>checked := None\<rparr>]
   \<and> secret \<in> set [secret, milk] \<and> distinct (map task_id [secret, milk])
   \<and> task_id secret \<notin> set (assigned_ids private_session)
   \<and> private (secret\<lparr>checked := Some True\<rparr>) = private secret
   \<and> private secret = Some True
   \<and> same_but_checked secret (secret\<lparr>checked := Some True\<rparr>)
   \<and> task_id (eggs\<lparr>checked := None\<rparr>) \<notin> task_id ` set [secret, milk]
   \<and> private (eggs\<lparr>checked := None\<rparr>) = None
   \<and> eggs\<lparr>checked := None\<rparr> \<in> set (tasksPublication (Some ''bob'') (run private_session [secret, milk]))
   \<and> eggs\<lparr>checked := None\<rparr> \<in> set (tasksPublication None (run private_session [secret, milk]))
   \<and> secret\<lparr>checked := Some True\<rparr>
        \<notin> set (tasksPublication (Some ''bob'') (run private_session [secret, milk]))
   \<and> eggs\<lparr>checked := None\<rparr>
        \<in> set (snd (tasks_insert alice_env (Str ''Buy eggs'') [secret, milk]))
   \<and> secret\<lparr>checked := Some True\<rparr>
        \<in> set (snd (tasks_setChecked anon_env (Str ''t3'') (Bool True) [secret, milk]))"
proof -
  let ?s = "[secret, milk]"
  let ?sec = "secret\<lparr>checked := Some True\<rparr>"
  let ?egg = "eggs\<lparr>checked := None\<rparr>"
  have h1: "?sec \<in> set (run private_session ?s)" and h2: "?egg \<in> set (run private_session ?s)"
    by (simp_all add: run_private_session)
  have h3: "secret \<in> set ?s" by simp
  have h4: "distinct (map task_id ?s)" by (simp add: secret_def milk_def)
  have h5: "task_id secret \<notin> set (assigned_ids private_session)"
    by (simp add: private_session_def secret_def alice_env_def)
  have h6: "task_id ?sec = task_id secret" by simp
  have h7: "task_id ?egg \<notin> task_id ` set ?s" by (simp add: secret_def milk_def eggs_def)
  have h8: "private secret = Some True" by (simp add: secret_def)
  from private_never_set [OF h1] h3 h4 h5 h6
  have a: "private ?sec = private secret \<and> same_but_checked secret ?sec" by blast
  from private_never_set [OF h2] h7
  have b: "private ?egg = None \<and> (\<forall>u. ?egg \<in> set (tasksPublication u (run private_session ?s)))"
    by blast
  have c: "?sec \<notin> set (tasksPublication (Some ''bob'') (run private_session ?s))"
    by (simp add: mem_tasksPublication secret_def)
  have d: "?egg \<in> set (snd (tasks_insert alice_env (Str ''Buy eggs'') ?s))"
    by (simp add: tasks_insert_def Tasks_insert_def alice_env_def users_findOne_def alice_def
        milk_def secret_def eggs_def)
  have e: "?sec \<in> set (snd (tasks_setChecked anon_env (Str ''t3'') (Bool True) ?s))"
    by (simp add: tasks_setChecked_def id_selector_def field_def val_eq_def set_checked_def
        secret_def)
  from a b c d e h3 h4 h5 h7 h8 run_private_session show ?thesis by blast
qed

section \<open>The client\<close>

lemma mset_insert_desc: "mset (insert_desc x ys) = add_mset x (mset ys)"
  by (induction ys) auto

lemma set_insert_desc: "set (insert_desc x ys) = insert x (set ys)"
  by (induction ys) auto

lemma sorted_insert_desc:
  "sorted_wrt (\<lambda>a b. createdAt b \<le> createdAt a) ys
     \<Longrightarrow> sorted_wrt (\<lambda>a b. createdAt b \<le> createdAt a) (insert_desc x ys)"
  by (induction ys) (auto simp: set_insert_desc)

lemma mset_sort_createdAt_desc: "mset (sort_createdAt_desc ts) = mset ts"
  unfolding sort_createdAt_desc_def by (induction ts) (simp_all add: mset_insert_desc)

lemma sorted_sort_createdAt_desc:
  "sorted_wrt (\<lambda>a b. createdAt b \<le> createdAt a) (sort_createdAt_desc ts)"
  unfolding sort_createdAt_desc_def by (induction ts) (simp_all add: sorted_insert_desc)

lemma matches_not_checked:
  "matches (Ne ''checked'' (Bool True)) t \<longleftrightarrow> checked t \<noteq> Some True"
  by (cases "checked t") (auto simp: field_def val_eq_def opt_val_def)

lemma users_findOne_id: "users_findOne us i = Some usr \<Longrightarrow> user_id usr = i"
  unfolding users_findOne_def by (induction us) (auto split: if_splits)

text \<open>
  C8. The view-model's task list is the client's tasks (the same tasks, each as often)
  in descending order of \<open>createdAt\<close>; \<open>incompleteCount\<close> is the number of the client's
  tasks whose \<open>checked\<close> is not \<open>true\<close>, absent ones included; \<open>currentUser\<close> is
  \<open>Meteor.user()\<close>, which, when present, is the user document of the logged-in id.
\<close>

theorem view_model:
  "sorted_wrt (\<lambda>a b. createdAt b \<le> createdAt a) (tasks (withTracker c))
   \<and> mset (tasks (withTracker c)) = mset (local_tasks c)
   \<and> incompleteCount (withTracker c)
       = length (filter (\<lambda>t. checked t \<noteq> Some True) (local_tasks c))
   \<and> currentUser (withTracker c) = Meteor_user c
   \<and> (\<forall>usr. currentUser (withTracker c) = Some usr
         \<longrightarrow> client_userId c = Some (user_id usr))"
proof -
  have "\<And>usr. Meteor_user c = Some usr \<Longrightarrow> client_userId c = Some (user_id usr)"
    by (auto simp: Meteor_user_def split: option.splits dest: users_findOne_id)
  moreover have "Tasks_find (Ne ''checked'' (Bool True)) (local_tasks c)
      = filter (\<lambda>t. checked t \<noteq> Some True) (local_tasks c)"
    unfolding Tasks_find_def by (rule filter_cong) (simp_all only: matches_not_checked)
  moreover have "Tasks_find All (local_tasks c) = local_tasks c"
    by (simp add: Tasks_find_def)
  ultimately show ?thesis
    by (simp add: withTracker_def sorted_sort_createdAt_desc mset_sort_createdAt_desc)
qed

lemma tasks_alice_client: "tasks (withTracker alice_client) = [eggs, milk, bread]"
  by (simp add: withTracker_def alice_client_def Tasks_find_def sort_createdAt_desc_def
      milk_def bread_def eggs_def)

lemma count_alice_client: "incompleteCount (withTracker alice_client) = 2"
  by (simp add: withTracker_def alice_client_def Tasks_find_def
      milk_def bread_def eggs_def field_def val_eq_def opt_val_def)

lemma user_alice_client: "currentUser (withTracker alice_client) = Some alice"
  by (simp add: withTracker_def alice_client_def Meteor_user_def users_findOne_def alice_def)

theorem view_model_witness:
  "tasks (withTracker alice_client) = [eggs, milk, bread]
   \<and> sorted_wrt (\<lambda>a b. createdAt b \<le> createdAt a) (tasks (withTracker alice_client))
   \<and> mset (tasks (withTracker alice_client)) = mset (local_tasks alice_client)
   \<and> incompleteCount (withTracker alice_client) = 2
   \<and> currentUser (withTracker alice_client) = Some alice
   \<and> client_userId alice_client = Some (user_id alice)"
  using view_model [of alice_client] tasks_alice_client count_alice_client user_alice_client
  by blast

lemma not_checked_iff: "not_checked t \<longleftrightarrow> checked t \<noteq> Some True"
  by (auto simp: not_checked_def split: option.splits bool.splits)

text \<open>
  C9. The rendered elements carry, in list order, the tasks whose \<open>checked\<close> is not
  \<open>true\<close> when the hide-completed toggle is on, and all tasks when it is off; each
  element is keyed by its task's id and shows the private button exactly when there is
  a current user and the task's owner is that user's id.
\<close>

theorem render_rule:
  "map task (renderTasks p h)
     = (if h then filter (\<lambda>t. checked t \<noteq> Some True) (tasks p) else tasks p)
   \<and> (\<forall>r \<in> set (renderTasks p h).
         key r = task_id (task r)
         \<and> (showPrivateButton r
              \<longleftrightarrow> (\<exists>usr. currentUser p = Some usr \<and> owner (task r) = user_id usr)))"
proof -
  have "map task (renderTasks p h) = filter (\<lambda>t. if h then not_checked t else True) (tasks p)"
    by (simp add: renderTasks_def comp_def)
  moreover have "filter (\<lambda>t. if h then not_checked t else True) (tasks p)
      = (if h then filter (\<lambda>t. checked t \<noteq> Some True) (tasks p) else tasks p)"
    by (simp add: not_checked_iff)
  moreover have "\<forall>r \<in> set (renderTasks p h).
         key r = task_id (task r)
         \<and> (showPrivateButton r
              \<longleftrightarrow> (\<exists>usr. currentUser p = Some usr \<and> owner (task r) = user_id usr))"
    by (cases "currentUser p") (auto simp: renderTasks_def currentUserId_def)
  ultimately show ?thesis by simp
qed

lemma render_hide: "renderTasks alice_props True =
     [\<lparr>showPrivateButton = True, key = ''t2'', task = eggs\<rparr>,
      \<lparr>showPrivateButton = True, key = ''t1'', task = milk\<rparr>]"
  by (simp add: renderTasks_def alice_props_def not_checked_def currentUserId_def
      milk_def bread_def eggs_def alice_def)

lemma render_all: "renderTasks alice_props False =
     [\<lparr>showPrivateButton = True, key = ''t2'', task = eggs\<rparr>,
      \<lparr>showPrivateButton = True, key = ''t1'', task = milk\<rparr>,
      \<lparr>showPrivateButton = False, key = ''t0'', task = bread\<rparr>]"
  by (simp add: renderTasks_def alice_props_def not_checked_def currentUserId_def
      milk_def bread_def eggs_def alice_def)

theorem render_rule_witness:
  "renderTasks alice_props True =
     [\<lparr>showPrivateButton = True, key = ''t2'', task = eggs\<rparr>,
      \<lparr>showPrivateButton = True, key = ''t1'', task = milk\<rparr>]
   \<and> renderTasks alice_props False =
     [\<lparr>showPrivateButton = True, key = ''t2'', task = eggs\<rparr>,
      \<lparr>showPrivateButton = True, key = ''t1'', task = milk\<rparr>,
      \<lparr>showPrivateButton = False, key = ''t0'', task = bread\<rparr>]
   \<and> map task (renderTasks alice_props True)
       = filter (\<lambda>t. checked t \<noteq> Some True) (tasks alice_props)
   \<and> map task (renderTasks alice_props False) = tasks alice_props
   \<and> \<lparr>showPrivateButton = False, key = ''t0'', task = bread\<rparr>
       \<in> set (renderTasks alice_props False)
   \<and> \<not> (\<exists>usr. currentUser alice_props = Some usr \<and> owner bread = user_id usr)"
proof -
  let ?r = "\<lparr>showPrivateButton = False, key = ''t0'', task = bread\<rparr>"
  from render_rule [of alice_props True]
  have a: "map task (renderTasks alice_props True)
      = filter (\<lambda>t. checked t \<noteq> Some True) (tasks alice_props)"
    by simp
  from render_rule [of alice_props False]
  have b: "map task (renderTasks alice_props False) = tasks alice_props"
    by simp
  have c: "?r \<in> set (renderTasks alice_props False)" by (simp add: render_all)
  from render_rule [of alice_props False] c
  have "showPrivateButton ?r
      \<longleftrightarrow> (\<exists>usr. currentUser alice_props = Some usr \<and> owner (task ?r) = user_id usr)"
    by blast
  then have d: "\<not> (\<exists>usr. currentUser alice_props = Some usr \<and> owner bread = user_id usr)"
    by simp
  from a b c d render_hide render_all show ?thesis by blast
qed

end
